theory Spec2Isabelle
  imports Complex_Main "HOL-Library.Word"
begin

section \<open>Data model\<close>

text \<open>
  The estimators of \<^verbatim>\<open>AutoThreshold.cpp\<close> work on a raw RGBA buffer
  (\<^verbatim>\<open>unsigned char *\<close>, four bytes per pixel, row-major) and on a 256-bin histogram of
  \<^verbatim>\<open>unsigned short\<close> counters. A buffer is a list of bytes, a histogram a list of
  16-bit words. The C \<^verbatim>\<open>int\<close> values (dimensions, loop counters, channel sums) are
  modelled as unbounded integers: every channel sum is at most \<open>6 * 255\<close>, and the byte
  offsets \<open>i*(Width*4) + j*4\<close> stay below \<open>4 * Width * Height\<close>, so they agree with
  the 32-bit arithmetic of the source for every buffer smaller than \<open>2^31\<close> bytes.
  The \<^verbatim>\<open>double\<close> values of the estimators and the \<^verbatim>\<open>float\<close> that \<^verbatim>\<open>gradient\<close> returns
  are modelled as real numbers; rounding is not modelled. In \<^verbatim>\<open>gradient\<close> and in the first loops of \<^verbatim>\<open>entropySplit\<close> the doubles hold
  sums of integers far below \<open>2^53\<close>, which are exact; the quotient of \<^verbatim>\<open>gradient\<close> is
  below 765, so its conversion to \<^verbatim>\<open>int\<close> is the integer quotient of the two sums.
\<close>

type_synonym byte = "8 word"
type_synonym ushort = "16 word"

definition px :: "byte list \<Rightarrow> int \<Rightarrow> int" where
  \<comment> \<open>\<^verbatim>\<open>(int)*(buffer + k)\<close>\<close>
  "px buffer k = uint (buffer ! nat k)"

definition int_of_double :: "real \<Rightarrow> int" where
  \<comment> \<open>the C conversion \<^verbatim>\<open>(int)x\<close>: truncation towards zero\<close>
  "int_of_double x = (if 0 \<le> x then \<lfloor>x\<rfloor> else \<lceil>x\<rceil>)"

section \<open>The gradient estimator\<close>

text \<open>
  The body of the inner loop of \<^verbatim>\<open>gradient\<close> up to \<^verbatim>\<open>exy = MAX(ex, ey)\<close>: the channel
  sums of the pixel itself and of its neighbours, read through the local pointer
  \<^verbatim>\<open>lp = buffer + i*(Width*4) + j*4\<close>. The source declares \<^verbatim>\<open>bot\<close>, sets it to 0 and
  adds the three bytes of the row below to \<^verbatim>\<open>top\<close>; the model does the same.
  The result is the pair \<open>(exy, mid)\<close>.
\<close>

definition gradient_pixel :: "byte list \<Rightarrow> int \<Rightarrow> int \<Rightarrow> int \<Rightarrow> int \<times> int" where
  "gradient_pixel buffer Width i j =
    (let lp = i * (Width * 4) + j * 4;
         left = 0;
         left = left + px buffer (lp - 4);
         left = left + px buffer (lp - 3);
         left = left + px buffer (lp - 2);
         mid = 0;
         mid = mid + px buffer lp;
         mid = mid + px buffer (lp + 1);
         mid = mid + px buffer (lp + 2);
         right = 0;
         right = right + px buffer (lp + 4);
         right = right + px buffer (lp + 5);
         right = right + px buffer (lp + 6);
         top = 0;
         top = top + px buffer (lp - Width * 4);
         top = top + px buffer (lp - Width * 4 + 1);
         top = top + px buffer (lp - Width * 4 + 2);
         bot = 0;
         top = top + px buffer (lp + Width * 4);
         top = top + px buffer (lp + Width * 4 + 1);
         top = top + px buffer (lp + Width * 4 + 2);
         ex = \<bar>left - right\<bar>;
         ey = \<bar>top - bot\<bar>;
         exy = max ex ey
     in (exy, mid))"

text \<open>
  The loop \<^verbatim>\<open>for(j=4; j<Width-4; j+=4)\<close> with the two \<^verbatim>\<open>double\<close> accumulators
  \<open>(sum_exy, sum_exy_fxy)\<close> as its state; the product \<^verbatim>\<open>exy*mid\<close> is taken on integers
  and then converted.
\<close>

function gradient_cols ::
  "byte list \<Rightarrow> int \<Rightarrow> int \<Rightarrow> int \<Rightarrow> real \<times> real \<Rightarrow> real \<times> real" where
  "gradient_cols buffer Width i j (sum_exy, sum_exy_fxy) =
    (if j < Width - 4 then
       (let (exy, mid) = gradient_pixel buffer Width i j
        in gradient_cols buffer Width i (j + 4)
             (sum_exy + real_of_int exy, sum_exy_fxy + real_of_int (exy * mid)))
     else (sum_exy, sum_exy_fxy))"
  by pat_completeness auto
termination
  by (relation "measure (\<lambda>(buffer, Width, i, j, acc). nat (Width - 4 - j))") auto

declare gradient_cols.simps [simp del]

text \<open>The loop \<^verbatim>\<open>for(i=4; i<Height-4; i+=4)\<close>.\<close>

function gradient_rows ::
  "byte list \<Rightarrow> int \<Rightarrow> int \<Rightarrow> int \<Rightarrow> real \<times> real \<Rightarrow> real \<times> real" where
  "gradient_rows buffer Width Height i acc =
    (if i < Height - 4 then
       gradient_rows buffer Width Height (i + 4) (gradient_cols buffer Width i 4 acc)
     else acc)"
  by pat_completeness auto
termination
  by (relation "measure (\<lambda>(buffer, Width, Height, i, acc). nat (Height - 4 - i))") auto

declare gradient_rows.simps [simp del]

text \<open>
  \<^verbatim>\<open>gradient\<close>: both accumulators start at 0, 1.0 is added to \<^verbatim>\<open>sum_exy\<close>, the
  quotient is converted to \<^verbatim>\<open>int\<close> and the integer is divided by \<^verbatim>\<open>3*256\<close> as a
  \<^verbatim>\<open>float\<close>.
\<close>

definition gradient :: "byte list \<Rightarrow> int \<Rightarrow> int \<Rightarrow> real" where
  "gradient buffer Width Height =
    (let (sum_exy, sum_exy_fxy) = gradient_rows buffer Width Height 4 (0, 0);
         sum_exy = sum_exy + 1;
         t = int_of_double (sum_exy_fxy / sum_exy)
     in real_of_int t / (3 * 256))"

text \<open>
  The sampling grid in the words of the specification: every fourth row and every fourth
  column, starting at offset 4 and stopping 4 short of each edge.
\<close>

definition stride4 :: "int \<Rightarrow> int list" where
  "stride4 n = filter (\<lambda>i. i mod 4 = 0) [4..n - 5]"

definition sample_points :: "int \<Rightarrow> int \<Rightarrow> (int \<times> int) list" where
  "sample_points Width Height = List.product (stride4 Height) (stride4 Width)"

definition sum_exy_over :: "byte list \<Rightarrow> int \<Rightarrow> (int \<times> int) list \<Rightarrow> real" where
  "sum_exy_over buffer Width pts =
    (\<Sum>(i, j)\<leftarrow>pts. real_of_int (fst (gradient_pixel buffer Width i j)))"

definition sum_exy_fxy_over :: "byte list \<Rightarrow> int \<Rightarrow> (int \<times> int) list \<Rightarrow> real" where
  "sum_exy_fxy_over buffer Width pts =
    (\<Sum>(i, j)\<leftarrow>pts. real_of_int (fst (gradient_pixel buffer Width i j) *
                                          snd (gradient_pixel buffer Width i j)))"

text \<open>
  The estimate as the specification words it: the edge term is
  \<open>max \<bar>left - right\<bar> \<bar>top - bot\<bar>\<close> with \<open>top\<close> and \<open>bot\<close> the channel sums of the
  pixel above and of the pixel below, and the weighted mean is divided by \<open>3 * 256\<close>
  as it is.
\<close>

definition claimed_exy :: "byte list \<Rightarrow> int \<Rightarrow> int \<Rightarrow> int \<Rightarrow> int" where
  "claimed_exy buffer Width i j =
    (let lp = i * (Width * 4) + j * 4;
         left = px buffer (lp - 4) + px buffer (lp - 3) + px buffer (lp - 2);
         right = px buffer (lp + 4) + px buffer (lp + 5) + px buffer (lp + 6);
         top = px buffer (lp - Width * 4) + px buffer (lp - Width * 4 + 1)
               + px buffer (lp - Width * 4 + 2);
         bot = px buffer (lp + Width * 4) + px buffer (lp + Width * 4 + 1)
               + px buffer (lp + Width * 4 + 2)
     in max \<bar>left - right\<bar> \<bar>top - bot\<bar>)"

definition claimed_mid :: "byte list \<Rightarrow> int \<Rightarrow> int \<Rightarrow> int \<Rightarrow> int" where
  "claimed_mid buffer Width i j =
    (let lp = i * (Width * 4) + j * 4
     in px buffer lp + px buffer (lp + 1) + px buffer (lp + 2))"

definition gradient_claimed :: "byte list \<Rightarrow> int \<Rightarrow> int \<Rightarrow> real" where
  "gradient_claimed buffer Width Height =
    (let pts = sample_points Width Height;
         sum_exy = (\<Sum>(i, j)\<leftarrow>pts. real_of_int (claimed_exy buffer Width i j));
         sum_exy_fxy = (\<Sum>(i, j)\<leftarrow>pts.
            real_of_int (claimed_exy buffer Width i j * claimed_mid buffer Width i j))
     in (sum_exy_fxy / (sum_exy + 1)) / (3 * 256))"

text \<open>
  A well-formed frame: positive dimensions and exactly four bytes per pixel.
\<close>

definition rgba_buffer :: "byte list \<Rightarrow> int \<Rightarrow> int \<Rightarrow> bool" where
  "rgba_buffer buffer Width Height \<longleftrightarrow>
     0 < Width \<and> 0 < Height \<and> int (length buffer) = Width * Height * 4"


text \<open>
  A 9 x 9 frame, black and transparent except for a short dark-red run on row 4:
  the pixels of columns 0, 3 and 4 have red 1. Its only sampling point is row 4,
  column 4, whose left neighbour has channel sum 1 and whose other neighbours are black.
\<close>

definition frame9 :: "byte list" where
  "frame9 = (replicate 324 0)[144 := 1, 156 := 1, 160 := 1]"

section \<open>The histogram builder\<close>

text \<open>
  The body of the inner loop of \<^verbatim>\<open>histo\<close>: the three colour bytes of pixel \<open>(i, j)\<close> are
  summed and the counter of bin \<^verbatim>\<open>k/3\<close> is incremented. The counters are
  \<^verbatim>\<open>unsigned short\<close>, so the increment wraps at \<open>2^16\<close>.
\<close>

definition histo_pixel :: "byte list \<Rightarrow> int \<Rightarrow> int \<Rightarrow> int \<Rightarrow> ushort list \<Rightarrow> ushort list" where
  "histo_pixel buffer Width i j histogram =
    (let lp = i * (Width * 4) + j * 4;
         k = px buffer lp;
         k = k + px buffer (lp + 1);
         k = k + px buffer (lp + 2);
         bin = nat (k div 3)
     in histogram[bin := histogram ! bin + 1])"

text \<open>
  \<^verbatim>\<open>histo\<close> clears the 256 counters it is given (\<^verbatim>\<open>memset\<close>) and then visits every
  pixel, rows \<open>0 \<le> i < Height\<close> outside and columns \<open>0 \<le> j < Width\<close> inside. The
  result is the array after the call.
\<close>

definition histo :: "byte list \<Rightarrow> int \<Rightarrow> int \<Rightarrow> ushort list \<Rightarrow> ushort list" where
  "histo buffer Width Height histogram =
    fold (\<lambda>i. fold (\<lambda>j. histo_pixel buffer Width (int i) (int j)) [0..<nat Width])
      [0..<nat Height] (replicate 256 0)"

section \<open>The entropy-split estimator\<close>

text \<open>The running sums \<^verbatim>\<open>pT[0] = normalizedHist[0]; pT[i] = pT[i-1] + normalizedHist[i]\<close>.\<close>

fun entropy_pT :: "(nat \<Rightarrow> real) \<Rightarrow> nat \<Rightarrow> real" where
  "entropy_pT normalizedHist 0 = normalizedHist 0"
| "entropy_pT normalizedHist (Suc i) = entropy_pT normalizedHist i + normalizedHist (Suc i)"

text \<open>
  \<^verbatim>\<open>entropySplit\<close>. The arrays are functions of the index; each \<^verbatim>\<open>for\<close> loop is a
  fold over its index range, in the order of the source. The natural logarithm \<open>ln\<close>
  stands for the C library's \<^verbatim>\<open>log\<close>.
\<close>

definition entropySplit :: "ushort list \<Rightarrow> int" where
  "entropySplit histogram =
    (let hist = (\<lambda>i. real (unat (histogram ! i)));
         sum = fold (\<lambda>i sum. sum + hist i) [0..<256] 0
     in if sum = 0 then 0
        else
          (let normalizedHist = (\<lambda>i. hist i / sum);
               pT = entropy_pT normalizedHist;
               epsilon = 0;
               hB = (\<lambda>t.
                 if pT t > epsilon then
                   fold (\<lambda>i hhB.
                          if normalizedHist i > epsilon
                          then hhB - normalizedHist i / pT t * ln (normalizedHist i / pT t)
                          else hhB) [0..<t + 1] 0
                 else 0);
               hW = (\<lambda>t.
                 let pTW = 1 - pT t in
                 if pTW > epsilon then
                   fold (\<lambda>i hhW.
                          if normalizedHist i > epsilon
                          then hhW - normalizedHist i / pTW * ln (normalizedHist i / pTW)
                          else hhW) [t + 1..<256] 0
                 else 0);
               (tMax, djMax) =
                 fold (\<lambda>t (tMax, djMax).
                        let dj = hB t + hW t in
                        if dj > djMax then (t, dj) else (tMax, djMax))
                   [1..<256] (0, hB 0 + hW 0)
           in int tMax))"

section \<open>The Otsu estimator\<close>

text \<open>
  \<^verbatim>\<open>prob[i] = (double)hist[i] / (Width * Height)\<close>, and the running sums
  \<^verbatim>\<open>omega[i] = omega[i-1] + prob[i]\<close> and \<^verbatim>\<open>myu[i] = myu[i-1] + i*prob[i]\<close> with
  \<^verbatim>\<open>omega[0] = prob[0]\<close> and \<^verbatim>\<open>myu[0] = 0.0\<close>.
\<close>

definition otsu_prob :: "int \<Rightarrow> int \<Rightarrow> ushort list \<Rightarrow> nat \<Rightarrow> real" where
  "otsu_prob Width Height hist i = real (unat (hist ! i)) / real_of_int (Width * Height)"

fun otsu_omega :: "(nat \<Rightarrow> real) \<Rightarrow> nat \<Rightarrow> real" where
  "otsu_omega prob 0 = prob 0"
| "otsu_omega prob (Suc i) = otsu_omega prob i + prob (Suc i)"

fun otsu_myu :: "(nat \<Rightarrow> real) \<Rightarrow> nat \<Rightarrow> real" where
  "otsu_myu prob 0 = 0"
| "otsu_myu prob (Suc i) = otsu_myu prob i + real (Suc i) * prob (Suc i)"

text \<open>The inter-class variance \<^verbatim>\<open>sigma[i]\<close> of the maximisation loop.\<close>

definition otsu_sigma :: "(nat \<Rightarrow> real) \<Rightarrow> nat \<Rightarrow> real" where
  "otsu_sigma prob i =
    (if otsu_omega prob i \<noteq> 0 \<and> otsu_omega prob i \<noteq> 1
     then (otsu_myu prob (256 - 1) * otsu_omega prob i - otsu_myu prob i)\<^sup>2
          / (otsu_omega prob i * (1 - otsu_omega prob i))
     else 0)"

text \<open>
  One iteration of \<^verbatim>\<open>for (i = 0; i < 256-1; i++)\<close> on the state
  \<open>(threshold, max_sigma)\<close>, and \<^verbatim>\<open>otsu\<close> itself. When \<open>Width * Height = 0\<close> every
  \<^verbatim>\<open>prob[i]\<close> of the source is infinite or not a number, no \<^verbatim>\<open>sigma[i] > max_sigma\<close>
  holds and the source returns 0; the model, where \<open>x / 0 = 0\<close>, returns 0 there too.
\<close>

definition otsu_step :: "(nat \<Rightarrow> real) \<Rightarrow> nat \<Rightarrow> nat \<times> real \<Rightarrow> nat \<times> real" where
  "otsu_step prob i = (\<lambda>(threshold, max_sigma).
     if otsu_sigma prob i > max_sigma then (i, otsu_sigma prob i)
     else (threshold, max_sigma))"

definition otsu :: "int \<Rightarrow> int \<Rightarrow> ushort list \<Rightarrow> int" where
  "otsu Width Height hist =
    (let prob = otsu_prob Width Height hist;
         (threshold, max_sigma) = fold (otsu_step prob) [0..<256 - 1] (0, 0)
     in int threshold)"

section \<open>The plugin object and the threshold policy\<close>

text \<open>
  The threshold fields of the object are C \<^verbatim>\<open>float\<close>s, and \<^verbatim>\<open>SetParameter\<close> stores
  whatever 32 bits the host sends, so they can hold an infinity or a NaN. A float is a
  finite value, an infinity or NaN. The product of two finite values is their real
  product (rounding and overflow are not modelled); the other products and the
  comparisons follow IEEE 754: a product with a NaN operand, and zero times an infinity,
  is NaN, and every comparison with NaN is false.
\<close>

datatype cfloat = Finite real | PosInf | NegInf | NaN

fun fmul :: "cfloat \<Rightarrow> cfloat \<Rightarrow> cfloat" where
  "fmul NaN y = NaN"
| "fmul x NaN = NaN"
| "fmul (Finite a) (Finite b) = Finite (a * b)"
| "fmul (Finite a) PosInf = (if a = 0 then NaN else if 0 < a then PosInf else NegInf)"
| "fmul (Finite a) NegInf = (if a = 0 then NaN else if 0 < a then NegInf else PosInf)"
| "fmul PosInf (Finite b) = (if b = 0 then NaN else if 0 < b then PosInf else NegInf)"
| "fmul NegInf (Finite b) = (if b = 0 then NaN else if 0 < b then NegInf else PosInf)"
| "fmul PosInf PosInf = PosInf"
| "fmul PosInf NegInf = NegInf"
| "fmul NegInf PosInf = NegInf"
| "fmul NegInf NegInf = PosInf"

fun fless :: "cfloat \<Rightarrow> cfloat \<Rightarrow> bool" where
  "fless NaN y = False"
| "fless x NaN = False"
| "fless (Finite a) (Finite b) = (a < b)"
| "fless (Finite a) PosInf = True"
| "fless (Finite a) NegInf = False"
| "fless PosInf y = False"
| "fless NegInf (Finite b) = True"
| "fless NegInf PosInf = True"
| "fless NegInf NegInf = False"

text \<open>
  The value of the 32 bits of an IEEE 754 single: sign bit, eight exponent bits, 23
  fraction bits. This is what \<^verbatim>\<open>*((float *)&(pParam->NewParameterValue))\<close> reads.
\<close>

definition float_of_bits :: "32 word \<Rightarrow> cfloat" where
  "float_of_bits w =
    (let n = unat w;
         negative = (n div 2 ^ 31 = 1);
         e = (n div 2 ^ 23) mod 256;
         m = n mod 2 ^ 23;
         s = (if negative then - 1 else 1)
     in if e = 255 then (if m = 0 then (if negative then NegInf else PosInf) else NaN)
        else if e = 0 then Finite (s * real m / 2 ^ 149)
        else Finite (s * real (2 ^ 23 + m) * 2 ^ e / 2 ^ 150))"

text \<open>
  The fields of the \<^verbatim>\<open>AutoThreshold\<close> object that the threshold computation reads or
  writes. \<open>constructed\<close> is the object after the constructor and \<^verbatim>\<open>InitGL\<close>.
\<close>

record plugin =
  m_Threshold :: cfloat
  m_UserThreshold :: cfloat
  m_AutoThreshold :: cfloat
  m_Auto :: int

definition constructed :: plugin where
  "constructed =
    \<lparr>m_Threshold = Finite 0, m_UserThreshold = Finite (1 / 2),
     m_AutoThreshold = Finite 0, m_Auto = 0\<rparr>"

datatype ff_result = FF_SUCCESS | FF_FAIL

definition FFPARAM_Threshold :: nat where "FFPARAM_Threshold = 0"
definition FFPARAM_Auto :: nat where "FFPARAM_Auto = 2"
definition FFPARAM_Alf2 :: nat where "FFPARAM_Alf2 = 12"

record SetParameterStruct =
  ParameterNumber :: nat
  NewParameterValue :: "32 word"

text \<open>
  \<^verbatim>\<open>SetParameter\<close>: a null pointer and an unknown parameter number fail. The threshold
  parameter stores the bits it is given as a float, without any test; the automatic flag
  becomes 1 or 0. The other eleven parameters set fields that are not part of this
  model.
\<close>

definition SetParameter :: "SetParameterStruct option \<Rightarrow> plugin \<Rightarrow> ff_result \<times> plugin" where
  "SetParameter pParam this =
    (case pParam of
       None \<Rightarrow> (FF_FAIL, this)
     | Some p \<Rightarrow>
         if ParameterNumber p = FFPARAM_Threshold
         then (FF_SUCCESS, this\<lparr>m_UserThreshold := float_of_bits (NewParameterValue p)\<rparr>)
         else if ParameterNumber p = FFPARAM_Auto
         then (FF_SUCCESS, this\<lparr>m_Auto := (if NewParameterValue p > 0 then 1 else 0)\<rparr>)
         else if ParameterNumber p \<le> FFPARAM_Alf2 then (FF_SUCCESS, this)
         else (FF_FAIL, this))"

text \<open>
  An input texture as \<^verbatim>\<open>ProcessOpenGL\<close> sees it: its dimensions and the RGBA bytes that
  \<^verbatim>\<open>LoadFromTexture\<close> reads back into the buffer.
\<close>

record texture =
  tex_Width :: nat
  tex_Height :: nat
  tex_pixels :: "byte list"

text \<open>
  The threshold of the frame, as \<^verbatim>\<open>ProcessOpenGL\<close> sets it before drawing: the product
  of the last automatic estimate, the user value and 2 in automatic mode, the user value
  otherwise, then the two tests \<^verbatim>\<open>m_Threshold < 0.0\<close> and \<^verbatim>\<open>m_Threshold > 1.0\<close>.
\<close>

definition set_threshold :: "plugin \<Rightarrow> plugin" where
  "set_threshold this =
    (let this = (if m_Auto this \<noteq> 0
                 then this\<lparr>m_Threshold :=
                        fmul (fmul (m_AutoThreshold this) (m_UserThreshold this)) (Finite 2)\<rparr>
                 else this\<lparr>m_Threshold := m_UserThreshold this\<rparr>);
         this = (if fless (m_Threshold this) (Finite 0) then this\<lparr>m_Threshold := Finite 0\<rparr>
                 else this);
         this = (if fless (Finite 1) (m_Threshold this) then this\<lparr>m_Threshold := Finite 1\<rparr>
                 else this)
     in this)"

text \<open>
  \<^verbatim>\<open>ProcessOpenGL\<close> without the drawing calls: it fails when there is no input texture,
  sets the threshold, and in automatic mode stores the gradient estimate of the current
  frame for the next call.
\<close>

definition ProcessOpenGL :: "texture option list \<Rightarrow> plugin \<Rightarrow> ff_result \<times> plugin" where
  "ProcessOpenGL inputTextures this =
    (if length inputTextures < 1 then (FF_FAIL, this)
     else case inputTextures ! 0 of
       None \<Rightarrow> (FF_FAIL, this)
     | Some Texture \<Rightarrow>
         (let this = set_threshold this;
              this = (if m_Auto this \<noteq> 0
                      then (let buffer = tex_pixels Texture
                            in this\<lparr>m_AutoThreshold :=
                                 Finite (gradient buffer (int (tex_Width Texture))
                                           (int (tex_Height Texture)))\<rparr>)
                      else this)
          in (FF_SUCCESS, this)))"

text \<open>
  The clamp of the specification on real numbers, and on floats: an infinity is clamped
  to the nearer bound and NaN, which no bound compares with, is left as it is. A float
  lies in the unit interval when it is a finite value between 0 and 1.
\<close>

definition clamp :: "real \<Rightarrow> real \<Rightarrow> real \<Rightarrow> real" where
  "clamp x lo hi = max lo (min x hi)"

fun clamp_unit :: "cfloat \<Rightarrow> cfloat" where
  "clamp_unit (Finite x) = Finite (clamp x 0 1)"
| "clamp_unit PosInf = Finite 1"
| "clamp_unit NegInf = Finite 0"
| "clamp_unit NaN = NaN"

fun in_unit_interval :: "cfloat \<Rightarrow> bool" where
  "in_unit_interval (Finite x) = (0 \<le> x \<and> x \<le> 1)"
| "in_unit_interval PosInf = False"
| "in_unit_interval NegInf = False"
| "in_unit_interval NaN = False"

text \<open>
  The value \<^verbatim>\<open>ProcessOpenGL\<close> assigns to \<^verbatim>\<open>m_Threshold\<close> before the two tests, as the
  claim words it: estimate times user value times 2 in automatic mode, the user value
  otherwise.
\<close>

definition unclamped :: "plugin \<Rightarrow> cfloat" where
  "unclamped this =
    (if m_Auto this \<noteq> 0 then fmul (fmul (m_AutoThreshold this) (m_UserThreshold this)) (Finite 2)
     else m_UserThreshold this)"

section \<open>Test frames\<close>

text \<open>A frame of \<open>n\<close> pixels of one colour.\<close>

definition solid_frame :: "byte \<Rightarrow> byte \<Rightarrow> byte \<Rightarrow> byte \<Rightarrow> nat \<Rightarrow> byte list" where
  "solid_frame r g b a n = concat (replicate n [r, g, b, a])"

text \<open>The 64 x 64 mid-grey frame and the 256 x 256 opaque black frame.\<close>

definition gray64 :: "byte list" where
  "gray64 = solid_frame 128 128 128 255 (64 * 64)"

definition black256 :: "byte list" where
  "black256 = solid_frame 0 0 0 255 (256 * 256)"

text \<open>
  The 256 x 256 frame whose left half is black and whose right half is white: each of
  the 256 rows is 128 black pixels followed by 128 white pixels.
\<close>

definition half256 :: "byte list" where
  "half256 =
    concat (replicate 256 (solid_frame 0 0 0 255 128 @ solid_frame 255 255 255 255 128))"

text \<open>A histogram with \<open>a\<close> more samples in bin 0 and \<open>b\<close> more in bin 255.\<close>

definition bump2 :: "ushort \<Rightarrow> ushort \<Rightarrow> ushort list \<Rightarrow> ushort list" where
  "bump2 a b h = h[0 := h ! 0 + a, 255 := h ! 255 + b]"

text \<open>The histogram with 32768 samples at grey level 0 and 32768 at grey level 255.\<close>

definition half_hist :: "ushort list" where
  "half_hist = (replicate 256 0)[0 := 32768, 255 := 32768]"

text \<open>
  Two parameter blocks a host can send for the threshold: the bits \<open>0x3F400000\<close> of the
  float 0.75 and the bits \<open>0x7FC00000\<close> of a quiet NaN; and the block that switches
  automatic mode on.
\<close>

definition threshold_075 :: SetParameterStruct where
  "threshold_075 = \<lparr>ParameterNumber = 0, NewParameterValue = 0x3F400000\<rparr>"

definition threshold_nan :: SetParameterStruct where
  "threshold_nan = \<lparr>ParameterNumber = 0, NewParameterValue = 0x7FC00000\<rparr>"

definition auto_on :: SetParameterStruct where
  "auto_on = \<lparr>ParameterNumber = 2, NewParameterValue = 1\<rparr>"

definition threshold_inf :: SetParameterStruct where
  "threshold_inf = \<lparr>ParameterNumber = 0, NewParameterValue = 0x7F800000\<rparr>"

text \<open>
  An 8 x 8 transparent black texture and the 64 x 64 mid-grey texture. \<open>running\<close> is
  the object after the host has set the threshold to 0.75, switched automatic mode on and
  had the grey texture processed once.
\<close>

definition blank_texture :: texture where
  "blank_texture = \<lparr>tex_Width = 8, tex_Height = 8, tex_pixels = replicate 256 0\<rparr>"

definition gray_texture :: texture where
  "gray_texture = \<lparr>tex_Width = 64, tex_Height = 64, tex_pixels = gray64\<rparr>"

definition running :: plugin where
  "running =
    snd (ProcessOpenGL [Some gray_texture]
      (snd (SetParameter (Some auto_on) (snd (SetParameter (Some threshold_075) constructed)))))"

section \<open>Properties of the gradient estimator\<close>

lemma filter_stride_step:
  assumes "j mod 4 = 0" "j \<le> n"
  shows "filter (\<lambda>i. i mod 4 = 0) [j..n] = j # filter (\<lambda>i. i mod 4 = 0) [j + 4..n]"
proof -
  have "[j..n] = j # [j + 1..n]"
    using assms(2) by (simp add: upto_rec1)
  moreover have "filter (\<lambda>i. i mod 4 = 0) [j + 1..n] = filter (\<lambda>i. i mod 4 = 0) [j + 4..n]"
  proof (cases "j + 4 \<le> n")
    case True
    have "[j + 1..n] = [j + 1..j + 4 - 1] @ [j + 4..n]"
      using True by (intro upto_split1) auto
    moreover have "filter (\<lambda>i. i mod 4 = 0) [j + 1..j + 4 - 1] = []"
      unfolding filter_empty_conv using assms(1) by (auto; presburger)
    ultimately show ?thesis by simp
  next
    case False
    then have "[j + 4..n] = []" by simp
    moreover have "filter (\<lambda>i. i mod 4 = 0) [j + 1..n] = []"
      unfolding filter_empty_conv using assms(1) False by (auto; presburger)
    ultimately show ?thesis by simp
  qed
  ultimately show ?thesis using assms(1) by simp
qed


lemma gradient_cols_sum:
  "j mod 4 = 0 \<Longrightarrow>
   gradient_cols buffer Width i j (a, b) =
     (a + (\<Sum>j'\<leftarrow>filter (\<lambda>k. k mod 4 = 0) [j..Width - 5].
              real_of_int (fst (gradient_pixel buffer Width i j'))),
      b + (\<Sum>j'\<leftarrow>filter (\<lambda>k. k mod 4 = 0) [j..Width - 5].
              real_of_int (fst (gradient_pixel buffer Width i j') * snd (gradient_pixel buffer Width i j'))))"
proof (induction buffer Width i j "(a, b)" arbitrary: a b rule: gradient_cols.induct)
  case (1 buffer Width i j sum_exy sum_exy_fxy)
  show ?case
  proof (cases "j < Width - 4")
    case True
    obtain exy mid where p: "gradient_pixel buffer Width i j = (exy, mid)"
      by (cases "gradient_pixel buffer Width i j")
    have m: "(j + 4) mod 4 = 0" using "1.prems" by presburger
    have f: "filter (\<lambda>k. k mod 4 = 0) [j..Width - 5] = j # filter (\<lambda>k. k mod 4 = 0) [j + 4..Width - 5]"
      using True "1.prems" by (intro filter_stride_step) auto
    show ?thesis
      using True p "1.hyps"[OF True p[symmetric] refl m]
      by (subst gradient_cols.simps) (simp add: f add.assoc)
  next
    case False
    then show ?thesis by (subst gradient_cols.simps) simp
  qed
qed

lemma gradient_rows_sum:
  "i mod 4 = 0 \<Longrightarrow>
   gradient_rows buffer Width Height i (a, b) =
     (a + (\<Sum>i'\<leftarrow>filter (\<lambda>k. k mod 4 = 0) [i..Height - 5]. \<Sum>j'\<leftarrow>stride4 Width.
              real_of_int (fst (gradient_pixel buffer Width i' j'))),
      b + (\<Sum>i'\<leftarrow>filter (\<lambda>k. k mod 4 = 0) [i..Height - 5]. \<Sum>j'\<leftarrow>stride4 Width.
              real_of_int (fst (gradient_pixel buffer Width i' j') * snd (gradient_pixel buffer Width i' j'))))"
proof (induction buffer Width Height i "(a, b)" arbitrary: a b rule: gradient_rows.induct)
  case (1 buffer Width Height i)
  show ?case
  proof (cases "i < Height - 4")
    case True
    have m: "(i + 4) mod 4 = 0" using "1.prems" by presburger
    have f: "filter (\<lambda>k. k mod 4 = 0) [i..Height - 5] = i # filter (\<lambda>k. k mod 4 = 0) [i + 4..Height - 5]"
      using True "1.prems" by (intro filter_stride_step) auto
    have c: "gradient_cols buffer Width i 4 (a, b) =
      (a + (\<Sum>j'\<leftarrow>stride4 Width. real_of_int (fst (gradient_pixel buffer Width i j'))),
       b + (\<Sum>j'\<leftarrow>stride4 Width.
              real_of_int (fst (gradient_pixel buffer Width i j') * snd (gradient_pixel buffer Width i j'))))"
      unfolding stride4_def by (rule gradient_cols_sum) simp
    show ?thesis
      using True "1.hyps"[OF True c m]
      by (subst gradient_rows.simps) (simp add: f c add.assoc)
  next
    case False
    then show ?thesis by (subst gradient_rows.simps) simp
  qed
qed


lemma sum_list_product:
  "(\<Sum>(i, j)\<leftarrow>List.product xs ys. f i j) = (\<Sum>i\<leftarrow>xs. \<Sum>j\<leftarrow>ys. (f i j :: real))"
  by (induction xs) (simp_all add: comp_def)

lemma gradient_rows_sample_points:
  "gradient_rows buffer Width Height 4 (0, 0) =
     (sum_exy_over buffer Width (sample_points Width Height),
      sum_exy_fxy_over buffer Width (sample_points Width Height))"
proof -
  have "(4::int) mod 4 = 0" by simp
  then show ?thesis
    unfolding sum_exy_over_def sum_exy_fxy_over_def sample_points_def sum_list_product
    by (simp add: gradient_rows_sum stride4_def)
qed

lemma px_bounds: "0 \<le> px buffer k" "px buffer k \<le> 255"
proof -
  show "0 \<le> px buffer k" by (simp add: px_def)
  have "uint (buffer ! nat k) < 2 ^ LENGTH(8)" by (rule uint_lt2p)
  then show "px buffer k \<le> 255" by (simp add: px_def)
qed

lemma gradient_pixel_bounds:
  "0 \<le> fst (gradient_pixel buffer Width i j)"
  "0 \<le> snd (gradient_pixel buffer Width i j)"
  "snd (gradient_pixel buffer Width i j) \<le> 765"
proof -
  show "0 \<le> fst (gradient_pixel buffer Width i j)"
    by (simp add: gradient_pixel_def Let_def)
  let ?lp = "i * (Width * 4) + j * 4"
  have m: "snd (gradient_pixel buffer Width i j) =
      px buffer ?lp + px buffer (?lp + 1) + px buffer (?lp + 2)"
    by (simp add: gradient_pixel_def Let_def)
  show "0 \<le> snd (gradient_pixel buffer Width i j)"
    unfolding m using px_bounds(1)[of buffer ?lp] px_bounds(1)[of buffer "?lp + 1"]
      px_bounds(1)[of buffer "?lp + 2"] by linarith
  show "snd (gradient_pixel buffer Width i j) \<le> 765"
    unfolding m using px_bounds(2)[of buffer ?lp] px_bounds(2)[of buffer "?lp + 1"]
      px_bounds(2)[of buffer "?lp + 2"] by linarith
qed

lemma sum_exy_over_nonneg: "0 \<le> sum_exy_over buffer Width pts"
  unfolding sum_exy_over_def
  by (rule sum_list_nonneg) (auto simp: gradient_pixel_bounds)

lemma sum_exy_fxy_over_nonneg: "0 \<le> sum_exy_fxy_over buffer Width pts"
  unfolding sum_exy_fxy_over_def
  by (rule sum_list_nonneg) (auto simp: gradient_pixel_bounds)

lemma sum_exy_fxy_over_le:
  "sum_exy_fxy_over buffer Width pts \<le> 765 * sum_exy_over buffer Width pts"
proof (induction pts)
  case Nil
  then show ?case by (simp add: sum_exy_over_def sum_exy_fxy_over_def)
next
  case (Cons p pts)
  obtain i j where p: "p = (i, j)" by (cases p)
  have "fst (gradient_pixel buffer Width i j) * snd (gradient_pixel buffer Width i j)
      \<le> fst (gradient_pixel buffer Width i j) * 765"
    by (intro mult_left_mono gradient_pixel_bounds)
  then have "real_of_int (fst (gradient_pixel buffer Width i j) * snd (gradient_pixel buffer Width i j))
      \<le> real_of_int (fst (gradient_pixel buffer Width i j) * 765)"
    by (rule of_int_le_iff[THEN iffD2])
  with Cons show ?case
    by (simp add: p sum_exy_over_def sum_exy_fxy_over_def)
qed

lemma gradient_closed_form:
  "gradient buffer Width Height =
     real_of_int \<lfloor>sum_exy_fxy_over buffer Width (sample_points Width Height) /
                  (sum_exy_over buffer Width (sample_points Width Height) + 1)\<rfloor> / (3 * 256)"
proof -
  let ?A = "sum_exy_over buffer Width (sample_points Width Height)"
  let ?B = "sum_exy_fxy_over buffer Width (sample_points Width Height)"
  have "0 \<le> ?B / (?A + 1)"
    using sum_exy_over_nonneg[of buffer Width "sample_points Width Height"]
      sum_exy_fxy_over_nonneg[of buffer Width "sample_points Width Height"]
    by simp
  then show ?thesis
    by (simp add: gradient_def gradient_rows_sample_points int_of_double_def)
qed

lemma gradient_quotient_bounds:
  "0 \<le> \<lfloor>sum_exy_fxy_over buffer Width pts / (sum_exy_over buffer Width pts + 1)\<rfloor>"
  "\<lfloor>sum_exy_fxy_over buffer Width pts / (sum_exy_over buffer Width pts + 1)\<rfloor> \<le> 764"
proof -
  let ?A = "sum_exy_over buffer Width pts"
  let ?B = "sum_exy_fxy_over buffer Width pts"
  have A: "0 \<le> ?A" by (rule sum_exy_over_nonneg)
  have B: "0 \<le> ?B" by (rule sum_exy_fxy_over_nonneg)
  have BA: "?B \<le> 765 * ?A" by (rule sum_exy_fxy_over_le)
  from A B show "0 \<le> \<lfloor>?B / (?A + 1)\<rfloor>" by simp
  have "?B < 765 * (?A + 1)" using BA by simp
  then have "?B / (?A + 1) < 765" using A by (simp add: pos_divide_less_eq)
  then have "\<lfloor>?B / (?A + 1)\<rfloor> < 765" by (simp add: floor_less_iff)
  then show "\<lfloor>?B / (?A + 1)\<rfloor> \<le> 764" by simp
qed

text \<open>
  Claim C7. For every RGBA buffer with positive dimensions the value returned by the
  gradient estimator lies in \<open>[0, 1]\<close>: every \<open>mid\<close> is at most \<open>3 * 255\<close>, so the
  truncated weighted mean is an integer between 0 and 764.
\<close>

theorem gradient_in_unit_interval:
  assumes "rgba_buffer buffer Width Height"
  shows "0 \<le> gradient buffer Width Height \<and> gradient buffer Width Height \<le> 1"
proof -
  let ?t = "\<lfloor>sum_exy_fxy_over buffer Width (sample_points Width Height) /
             (sum_exy_over buffer Width (sample_points Width Height) + 1)\<rfloor>"
  have g: "gradient buffer Width Height = real_of_int ?t / (3 * 256)"
    by (rule gradient_closed_form)
  have "0 \<le> ?t" "?t \<le> 764" by (rule gradient_quotient_bounds)+
  then have "0 \<le> real_of_int ?t" "real_of_int ?t \<le> 764" by linarith+
  then show ?thesis unfolding g by simp
qed

text \<open>The theorem of C7 at the 9 x 9 frame.\<close>

theorem gradient_in_unit_interval_witness:
  "rgba_buffer frame9 9 9 \<and> 0 \<le> gradient frame9 9 9 \<and> gradient frame9 9 9 \<le> 1"
proof -
  have h: "rgba_buffer frame9 9 9" by (simp add: rgba_buffer_def frame9_def)
  show ?thesis using h gradient_in_unit_interval [OF h] by simp
qed

lemma product_Nil_right: "List.product xs [] = []"
  by (induction xs) simp_all

text \<open>
  Claim C10. When \<open>Width\<close> is at most 8 or \<open>Height\<close> is at most 8 no pixel is sampled:
  both accumulators are still 0 after the loops and the estimator returns exactly 0.
\<close>

theorem gradient_small_frame:
  assumes "Width \<le> 8 \<or> Height \<le> 8"
  shows "gradient_rows buffer Width Height 4 (0, 0) = (0, 0) \<and> gradient buffer Width Height = 0"
proof -
  have "sample_points Width Height = []"
    using assms by (auto simp: sample_points_def stride4_def product_Nil_right)
  then have "gradient_rows buffer Width Height 4 (0, 0) = (0, 0)"
    by (simp add: gradient_rows_sample_points sum_exy_over_def sum_exy_fxy_over_def)
  then show ?thesis
    by (simp add: gradient_def int_of_double_def)
qed

text \<open>The theorem of C10 at an 8 x 8 frame.\<close>

theorem gradient_small_frame_witness:
  "((8::int) \<le> 8 \<or> (8::int) \<le> 8) \<and> rgba_buffer (replicate 256 200) 8 8
   \<and> gradient_rows (replicate 256 200) 8 8 4 (0, 0) = (0, 0)
   \<and> gradient (replicate 256 200) 8 8 = 0"
  using gradient_small_frame [of 8 8 "replicate 256 200"]
  by (simp add: rgba_buffer_def)

lemma sample_points_member:
  "(i, j) \<in> set (sample_points Width Height) \<longleftrightarrow>
     4 \<le> i \<and> i < Height - 4 \<and> i mod 4 = 0 \<and> 4 \<le> j \<and> j < Width - 4 \<and> j mod 4 = 0"
  by (auto simp: sample_points_def stride4_def)

lemma sample_points_distinct: "distinct (sample_points Width Height)"
  by (simp add: sample_points_def stride4_def distinct_product)

text \<open>
  On a well-formed frame every byte the loop body reads lies inside the buffer: the
  lowest offset read is \<open>lp - Width * 4\<close> and the highest is \<open>lp + Width * 4 + 2\<close>.
\<close>

lemma gradient_reads_in_bounds:
  assumes "rgba_buffer buffer Width Height" "(i, j) \<in> set (sample_points Width Height)"
  shows "0 \<le> i * (Width * 4) + j * 4 - Width * 4"
    and "i * (Width * 4) + j * 4 + Width * 4 + 2 < int (length buffer)"
proof -
  have ij: "4 \<le> i" "i < Height - 4" "4 \<le> j" "j < Width - 4"
    using assms(2) by (simp_all add: sample_points_member)
  have W: "0 < Width" and len: "int (length buffer) = Width * Height * 4"
    using assms(1) by (simp_all add: rgba_buffer_def)
  have "1 * (Width * 4) \<le> i * (Width * 4)"
    using ij(1) W by (intro mult_right_mono) simp_all
  then have "Width * 4 \<le> i * (Width * 4)"
    by (simp only: mult_1)
  then show "0 \<le> i * (Width * 4) + j * 4 - Width * 4"
    using ij(3) by linarith
  have "(i + 1) * (Width * 4) \<le> (Height - 4) * (Width * 4)"
    using ij(2) W by (intro mult_right_mono) simp_all
  moreover have "(i + 1) * (Width * 4) = i * (Width * 4) + Width * 4"
    by (simp add: algebra_simps)
  moreover have "(Height - 4) * (Width * 4) = Width * Height * 4 - Width * 16"
    by (simp add: algebra_simps)
  ultimately have "i * (Width * 4) + Width * 4 \<le> Width * Height * 4 - Width * 16"
    by (simp only:)
  then show "i * (Width * 4) + j * 4 + Width * 4 + 2 < int (length buffer)"
    using ij(4) W unfolding len by linarith
qed

text \<open>
  Claim C1, as amended. The loops accumulate \<open>exy\<close> and \<open>exy * mid\<close> over exactly the
  grid of every fourth row and column from 4 up to, but excluding, \<open>Height - 4\<close> and
  \<open>Width - 4\<close>, each point once; the estimator returns the weighted mean
  \<open>sum_exy_fxy / (sum_exy + 1)\<close> truncated to an integer and then divided by \<open>3 * 256\<close>.
\<close>

theorem gradient_truncated_weighted_mean:
  "gradient_rows buffer Width Height 4 (0, 0) =
     (sum_exy_over buffer Width (sample_points Width Height),
      sum_exy_fxy_over buffer Width (sample_points Width Height))
   \<and> gradient buffer Width Height =
     real_of_int \<lfloor>sum_exy_fxy_over buffer Width (sample_points Width Height) /
                  (sum_exy_over buffer Width (sample_points Width Height) + 1)\<rfloor> / (3 * 256)
   \<and> ((i, j) \<in> set (sample_points Width Height) \<longleftrightarrow>
        4 \<le> i \<and> i < Height - 4 \<and> i mod 4 = 0 \<and> 4 \<le> j \<and> j < Width - 4 \<and> j mod 4 = 0)
   \<and> distinct (sample_points Width Height)"
  by (intro conjI gradient_rows_sample_points gradient_closed_form sample_points_member
      sample_points_distinct)

lemma sample_points_9: "sample_points 9 9 = [(4, 4)]"
  by (simp add: sample_points_def stride4_def upto.simps)

lemma frame9_pixel: "gradient_pixel frame9 9 4 4 = (1, 1)"
  by (simp add: gradient_pixel_def px_def frame9_def Let_def)

lemma gradient_frame9: "gradient frame9 9 9 = 0"
  by (simp add: gradient_closed_form sample_points_9 sum_exy_over_def sum_exy_fxy_over_def
      frame9_pixel)

text \<open>
  Claim C1 as stated fails at the 9 x 9 frame: its one sampling point has \<open>exy = 1\<close> and
  \<open>mid = 1\<close> (the pixel below is black, so \<open>\<bar>top - bot\<bar>\<close> is 0 on either reading), the
  quotient \<open>1 / 2\<close> is truncated to 0 and the estimator returns 0, not
  \<open>(1 / 2) / (3 * 256)\<close>.
\<close>

theorem gradient_not_untruncated_quotient:
  "rgba_buffer frame9 9 9 \<and> gradient frame9 9 9 = 0 \<and> gradient_claimed frame9 9 9 = 1 / 1536
   \<and> gradient frame9 9 9 \<noteq> gradient_claimed frame9 9 9"
proof -
  have "rgba_buffer frame9 9 9" by (simp add: rgba_buffer_def frame9_def)
  moreover have "gradient_claimed frame9 9 9 = 1 / 1536"
    by (simp add: gradient_claimed_def sample_points_9 claimed_exy_def claimed_mid_def
        px_def frame9_def Let_def)
  ultimately show ?thesis by (simp add: gradient_frame9)
qed

section \<open>Properties of the histogram builder\<close>

lemma nth_concat_replicate:
  "0 < length xs \<Longrightarrow> k < n * length xs \<Longrightarrow> concat (replicate n xs) ! k = xs ! (k mod length xs)"
proof (induction n arbitrary: k)
  case 0
  then show ?case by simp
next
  case (Suc n)
  show ?case
  proof (cases "k < length xs")
    case True
    then show ?thesis by (simp add: nth_append)
  next
    case False
    then have "k - length xs < n * length xs" using Suc.prems by simp
    then have "concat (replicate n xs) ! (k - length xs) = xs ! ((k - length xs) mod length xs)"
      using Suc.IH Suc.prems(1) by blast
    moreover have "(k - length xs) mod length xs = k mod length xs"
      using False by (simp add: le_mod_geq)
    ultimately show ?thesis using False by (simp add: nth_append)
  qed
qed

lemma nth_solid_frame:
  "k < 4 * n \<Longrightarrow> solid_frame r g b a n ! k = [r, g, b, a] ! (k mod 4)"
  unfolding solid_frame_def using nth_concat_replicate[of "[r, g, b, a]" k n] by (simp add: mult.commute)

lemma length_solid_frame: "length (solid_frame r g b a n) = 4 * n"
  by (induction n) (simp_all add: solid_frame_def)

lemma colour_channel:
  "c < 3 \<Longrightarrow> [v, v, v, a] ! c = v"
  by (cases c; simp; cases "c - 1"; simp; cases "c - 2"; simp)

lemma px_solid_gray:
  assumes "m < n" "c < 3"
  shows "px (solid_frame v v v a n) (int m * 4 + int c) = uint v"
proof -
  have e: "int m * 4 + int c = int (m * 4 + c)" by simp
  have "(m * 4 + c) mod 4 = c" using assms(2) by simp
  moreover have "m * 4 + c < 4 * n" using assms by simp
  ultimately show ?thesis
    unfolding px_def e nat_int
    by (simp add: nth_solid_frame colour_channel assms(2))
qed

lemma length_bump2: "length (bump2 a b h) = length h"
  by (simp add: bump2_def)

lemma bump2_zero: "bump2 0 0 h = h"
  by (simp add: bump2_def)

lemma bump2_bump2:
  "length h = 256 \<Longrightarrow> bump2 a b (bump2 c d h) = bump2 (a + c) (b + d) h"
  by (simp add: bump2_def list_update_swap[of 0 255] ac_simps)

lemma bump2_first: "length h = 256 \<Longrightarrow> bump2 a 0 h = h[0 := h ! 0 + a]"
  by (simp add: bump2_def list_update_same_conv)

lemma bump2_last: "length h = 256 \<Longrightarrow> bump2 0 b h = h[255 := h ! 255 + b]"
  by (simp add: bump2_def)

lemma fold_bump2:
  assumes "\<And>x h. x \<in> set xs \<Longrightarrow> length h = 256 \<Longrightarrow> f x h = bump2 a b h" "length h = 256"
  shows "fold f xs h = bump2 (of_nat (length xs) * a) (of_nat (length xs) * b) h"
  using assms
proof (induction xs arbitrary: h)
  case Nil
  then show ?case by (simp add: bump2_zero)
next
  case (Cons x xs)
  have "f x h = bump2 a b h" using Cons.prems by simp
  moreover have "length (bump2 a b h) = 256" using Cons.prems(2) by (simp add: length_bump2)
  ultimately have "fold f (x # xs) h = bump2 (of_nat (length xs) * a) (of_nat (length xs) * b) (bump2 a b h)"
    using Cons.IH[of "bump2 a b h"] Cons.prems(1) by simp
  then show ?case
    using Cons.prems(2) by (simp add: bump2_bump2 algebra_simps)
qed

lemma histo_pixel_black256:
  assumes "i < 256" "j < 256" "length h = 256"
  shows "histo_pixel black256 256 (int i) (int j) h = bump2 1 0 h"
proof -
  have m: "i * 256 + j < 256 * 256" using assms by simp
  have lp: "int i * (256 * 4) + int j * 4 = int (i * 256 + j) * 4" by simp
  have p: "px black256 (int (i * 256 + j) * 4 + int c) = 0" if "c < 3" for c
    unfolding black256_def using px_solid_gray[OF m that, of 0 255] by simp
  have "px black256 (int (i * 256 + j) * 4) = 0" using p[of 0] by simp
  moreover have "px black256 (int (i * 256 + j) * 4 + 1) = 0" using p[of 1] by simp
  moreover have "px black256 (int (i * 256 + j) * 4 + 2) = 0" using p[of 2] by simp
  ultimately show ?thesis
    unfolding histo_pixel_def lp Let_def
    using assms(3) by (simp add: bump2_first)
qed

lemma histo_black256: "histo black256 256 256 histogram = replicate 256 0"
proof -
  have row: "fold (\<lambda>j. histo_pixel black256 256 (int i) (int j)) [0..<256] h = bump2 256 0 h"
    if "i < 256" "length h = 256" for i h
  proof -
    have "fold (\<lambda>j. histo_pixel black256 256 (int i) (int j)) [0..<256] h
        = bump2 (of_nat (length [0..<256]) * 1) (of_nat (length [0..<256]) * 0) h"
      by (rule fold_bump2) (use that in \<open>auto simp: histo_pixel_black256\<close>)
    then show ?thesis by simp
  qed
  have "fold (\<lambda>i. fold (\<lambda>j. histo_pixel black256 256 (int i) (int j)) [0..<256]) [0..<256]
          (replicate 256 0)
      = bump2 (of_nat (length [0..<256]) * 256) (of_nat (length [0..<256]) * 0) (replicate 256 0)"
    by (rule fold_bump2) (auto simp: row)
  moreover have "(65536 :: ushort) = 0" by simp
  ultimately show ?thesis
    by (simp add: histo_def bump2_zero del: upt_Suc)
qed

lemma rgba_buffer_black256: "rgba_buffer black256 256 256"
  by (simp add: rgba_buffer_def black256_def length_solid_frame)

text \<open>
  Claim C3 fails on the source. On the 256 x 256 opaque black frame all 65536 pixels fall
  into bin 0, whose 16-bit counter wraps to 0: the histogram is all zero and its counts
  sum to 0, not to \<open>256 * 256\<close>.
\<close>

theorem histo_black256_loses_count:
  "rgba_buffer black256 256 256
   \<and> histo black256 256 256 histogram = replicate 256 0
   \<and> sum_list (map unat (histo black256 256 256 histogram)) = 0
   \<and> sum_list (map unat (histo black256 256 256 histogram)) \<noteq> 256 * 256"
proof -
  have h: "histo black256 256 256 histogram = replicate 256 0"
    by (rule histo_black256)
  have "sum_list (map unat (replicate 256 (0 :: ushort))) = 0"
    by (simp add: sum_list_replicate)
  then have z: "sum_list (map unat (histo black256 256 256 histogram)) = 0"
    unfolding h .
  have "sum_list (map unat (histo black256 256 256 histogram)) \<noteq> 256 * 256"
    unfolding z by simp
  then show ?thesis
    using h z rgba_buffer_black256 by blast
qed

lemma upt_256_split: "[0..<256] = [0..<128] @ [128..<256]"
  using upt_add_eq_append[of 0 128 128] by (simp del: upt_rec_numeral upt_Suc)

lemma length_upt_128_256: "length [128..<256] = 128"
  by (simp del: upt_rec_numeral upt_Suc)

lemma set_upt_128_256: "x \<in> set [128..<256] \<longleftrightarrow> 128 \<le> x \<and> x < 256"
  by (simp del: upt_rec_numeral upt_Suc)

lemma px_half256:
  assumes "i < 256" "j < 256" "c < 3"
  shows "px half256 (int (i * 256 + j) * 4 + int c) = (if j < 128 then 0 else 255)"
proof -
  let ?row = "solid_frame 0 0 0 255 128 @ solid_frame 255 255 255 255 128"
  have len: "length ?row = 1024" by (simp add: length_solid_frame)
  have e: "int (i * 256 + j) * 4 + int c = int (i * 1024 + (j * 4 + c))" by simp
  have k: "i * 1024 + (j * 4 + c) < 256 * length ?row" using assms len by simp
  have pos: "0 < length ?row" unfolding len by simp
  have md: "(i * 1024 + (j * 4 + c)) mod 1024 = j * 4 + c" using assms by simp
  have "half256 ! (i * 1024 + (j * 4 + c)) = ?row ! ((i * 1024 + (j * 4 + c)) mod length ?row)"
    unfolding half256_def by (rule nth_concat_replicate[OF pos k])
  then have n: "half256 ! (i * 1024 + (j * 4 + c)) = ?row ! (j * 4 + c)"
    by (simp only: len md)
  show ?thesis
  proof (cases "j < 128")
    case True
    then have "j * 4 + c < 4 * 128" using assms(3) by simp
    then have "?row ! (j * 4 + c) = [0, 0, 0, 255] ! ((j * 4 + c) mod 4)"
      by (simp add: nth_append length_solid_frame nth_solid_frame)
    also have "\<dots> = 0" using assms(3) by (simp add: colour_channel)
    finally show ?thesis unfolding px_def e nat_int n using True by simp
  next
    case False
    then have "\<not> j * 4 + c < 4 * 128" by simp
    moreover have "j * 4 + c - 4 * 128 < 4 * 128" using assms by simp
    moreover have "j * 4 + c - 4 * 128 = (j - 128) * 4 + c" using False by simp
    then have "(j * 4 + c - 4 * 128) mod 4 = c" using assms(3) by simp
    ultimately have "?row ! (j * 4 + c) = [255, 255, 255, 255] ! c"
      by (simp add: nth_append length_solid_frame nth_solid_frame)
    also have "\<dots> = 255" using assms(3) by (simp add: colour_channel)
    finally show ?thesis unfolding px_def e nat_int n using False by simp
  qed
qed

lemma histo_pixel_half256:
  assumes "i < 256" "j < 256" "length h = 256"
  shows "histo_pixel half256 256 (int i) (int j) h = (if j < 128 then bump2 1 0 h else bump2 0 1 h)"
proof -
  have lp: "int i * (256 * 4) + int j * 4 = int (i * 256 + j) * 4" by simp
  have "px half256 (int (i * 256 + j) * 4) = (if j < 128 then 0 else 255)"
    using px_half256[OF assms(1,2), of 0] by simp
  moreover have "px half256 (int (i * 256 + j) * 4 + 1) = (if j < 128 then 0 else 255)"
    using px_half256[OF assms(1,2), of 1] by simp
  moreover have "px half256 (int (i * 256 + j) * 4 + 2) = (if j < 128 then 0 else 255)"
    using px_half256[OF assms(1,2), of 2] by simp
  ultimately show ?thesis
    unfolding histo_pixel_def lp Let_def
    using assms(3) by (simp add: bump2_first bump2_last)
qed

lemma histo_half256: "histo half256 256 256 histogram = half_hist"
proof -
  have row: "fold (\<lambda>j. histo_pixel half256 256 (int i) (int j)) [0..<256] h = bump2 128 128 h"
    if "i < 256" "length h = 256" for i h
  proof -
    have "fold (\<lambda>j. histo_pixel half256 256 (int i) (int j)) [0..<128] h
        = bump2 (of_nat (length [0..<128]) * 1) (of_nat (length [0..<128]) * 0) h"
      by (rule fold_bump2) (use that in \<open>auto simp: histo_pixel_half256\<close>)
    then have a: "fold (\<lambda>j. histo_pixel half256 256 (int i) (int j)) [0..<128] h = bump2 128 0 h"
      by simp
    have "fold (\<lambda>j. histo_pixel half256 256 (int i) (int j)) [128..<256] (bump2 128 0 h)
        = bump2 (of_nat (length [128..<256]) * 0) (of_nat (length [128..<256]) * 1) (bump2 128 0 h)"
    proof (rule fold_bump2)
      fix x h'
      assume x: "x \<in> set [128..<256]" and h': "length (h' :: ushort list) = 256"
      from x have "128 \<le> x \<and> x < 256" by (simp only: set_upt_128_256)
      then show "histo_pixel half256 256 (int i) (int x) h' = bump2 0 1 h'"
        using that(1) h' by (simp add: histo_pixel_half256)
    next
      show "length (bump2 128 0 h) = 256" using that(2) by (simp add: length_bump2)
    qed
    then have b: "fold (\<lambda>j. histo_pixel half256 256 (int i) (int j)) [128..<256] (bump2 128 0 h)
        = bump2 128 128 h"
      using that(2) by (simp add: bump2_bump2 length_upt_128_256 del: upt_rec_numeral)
    show ?thesis
      unfolding upt_256_split fold_append comp_def a b ..
  qed
  have "fold (\<lambda>i. fold (\<lambda>j. histo_pixel half256 256 (int i) (int j)) [0..<256]) [0..<256]
          (replicate 256 0)
      = bump2 (of_nat (length [0..<256]) * 128) (of_nat (length [0..<256]) * 128) (replicate 256 0)"
    by (rule fold_bump2) (auto simp: row)
  then show ?thesis
    by (simp add: histo_def bump2_def half_hist_def del: upt_Suc)
qed

lemma length_concat_replicate: "length (concat (replicate n xs)) = n * length xs"
  by (induction n) simp_all

lemma rgba_buffer_half256: "rgba_buffer half256 256 256"
  unfolding rgba_buffer_def half256_def length_concat_replicate
  by (simp add: length_solid_frame)

section \<open>The gradient estimator on a uniform frame\<close>

lemma px_gray64:
  assumes "0 \<le> k" "k < 16384" "k mod 4 \<noteq> 3"
  shows "px gray64 k = 128"
proof -
  define m where "m = nat (k div 4)"
  define c where "c = nat (k mod 4)"
  have "0 \<le> k div 4" using assms(1) by (simp add: pos_imp_zdiv_nonneg_iff)
  then have k: "k = int m * 4 + int c"
    by (simp add: m_def c_def)
  have "m < 64 * 64" using assms(1,2) by (simp add: m_def)
  moreover have "c < 3"
  proof -
    have "0 \<le> k mod 4" "k mod 4 < 4" by simp_all
    then have "k mod 4 < 3" using assms(3) by linarith
    then show ?thesis by (simp add: c_def)
  qed
  ultimately have "px (solid_frame 128 128 128 255 (64 * 64)) (int m * 4 + int c) = uint (128 :: byte)"
    by (rule px_solid_gray)
  then show ?thesis by (simp add: gray64_def k)
qed

lemma gradient_pixel_gray64:
  assumes "4 \<le> i" "i < 60" "i mod 4 = 0" "4 \<le> j" "j < 60" "j mod 4 = 0"
  shows "gradient_pixel gray64 64 i j = (768, 384)"
proof -
  obtain a where a: "i = 4 * a" using assms(3) by (metis mod_0_imp_dvd dvd_def)
  obtain b where b: "j = 4 * b" using assms(6) by (metis mod_0_imp_dvd dvd_def)
  have ab: "1 \<le> a" "a < 15" "1 \<le> b" "b < 15" using assms a b by simp_all
  define lp where "lp = i * (64 * 4) + j * 4"
  have lp: "lp = 16 * (64 * a + b)" by (simp add: lp_def a b)
  have r: "px gray64 (lp + d) = 128" if "d \<in> {-4, -3, -2, 0, 1, 2, 4, 5, 6, -256, -255, -254, 256, 257, 258}" for d
  proof (rule px_gray64)
    show "0 \<le> lp + d" using that ab lp by auto
    show "lp + d < 16384" using that ab lp by auto
    have "lp mod 4 = 0" unfolding lp by simp
    then have "(lp + d) mod 4 = d mod 4" by (metis add.commute mod_add_self1 mod_add_left_eq add_0)
    then show "(lp + d) mod 4 \<noteq> 3" using that by auto
  qed
  have f: "px gray64 (lp - 4) = 128" "px gray64 (lp - 3) = 128" "px gray64 (lp - 2) = 128"
    "px gray64 lp = 128" "px gray64 (lp + 1) = 128" "px gray64 (lp + 2) = 128"
    "px gray64 (lp + 4) = 128" "px gray64 (lp + 5) = 128" "px gray64 (lp + 6) = 128"
    "px gray64 (lp - 64 * 4) = 128" "px gray64 (lp + 64 * 4) = 128"
    using r[of "-4"] r[of "-3"] r[of "-2"] r[of 0] r[of 1] r[of 2] r[of 4] r[of 5] r[of 6]
      r[of "-256"] r[of 256]
    by simp_all
  have e: "lp - 64 * 4 + 1 = lp + (-255)" "lp - 64 * 4 + 2 = lp + (-254)"
    "lp + 64 * 4 + 1 = lp + 257" "lp + 64 * 4 + 2 = lp + 258"
    by simp_all
  have g: "px gray64 (lp - 64 * 4 + 1) = 128" "px gray64 (lp - 64 * 4 + 2) = 128"
    "px gray64 (lp + 64 * 4 + 1) = 128" "px gray64 (lp + 64 * 4 + 2) = 128"
    unfolding e by (rule r, simp)+
  show ?thesis
    unfolding gradient_pixel_def Let_def lp_def[symmetric] f g by simp
qed

lemma length_stride4_64: "length (stride4 64) = 14"
  by (simp add: stride4_def)

lemma sums_gray64:
  "sum_exy_over gray64 64 (sample_points 64 64) = 196 * 768"
  "sum_exy_fxy_over gray64 64 (sample_points 64 64) = 196 * (768 * 384)"
proof -
  have p: "gradient_pixel gray64 64 (fst p) (snd p) = (768, 384)"
    if "p \<in> set (sample_points 64 64)" for p
    using that sample_points_member[of "fst p" "snd p" 64 64]
    by (intro gradient_pixel_gray64) auto
  have l: "length (sample_points 64 64) = 196"
    by (simp add: sample_points_def length_stride4_64)
  have "map (\<lambda>(i, j). real_of_int (fst (gradient_pixel gray64 64 i j))) (sample_points 64 64)
      = map (\<lambda>p. 768) (sample_points 64 64)"
    by (rule map_cong[OF refl]) (use p in \<open>auto simp: case_prod_beta\<close>)
  then show "sum_exy_over gray64 64 (sample_points 64 64) = 196 * 768"
    unfolding sum_exy_over_def by (simp add: sum_list_triv l map_replicate_const sum_list_replicate)
  have "map (\<lambda>(i, j). real_of_int (fst (gradient_pixel gray64 64 i j) * snd (gradient_pixel gray64 64 i j)))
          (sample_points 64 64)
      = map (\<lambda>p. 768 * 384) (sample_points 64 64)"
    by (rule map_cong[OF refl]) (use p in \<open>auto simp: case_prod_beta\<close>)
  then show "sum_exy_fxy_over gray64 64 (sample_points 64 64) = 196 * (768 * 384)"
    unfolding sum_exy_fxy_over_def by (simp add: sum_list_triv l map_replicate_const sum_list_replicate)
qed

lemma rgba_buffer_gray64: "rgba_buffer gray64 64 64"
  by (simp add: rgba_buffer_def gray64_def length_solid_frame)

lemma claimed_exy_gray64: "claimed_exy gray64 64 4 4 = 0"
proof -
  have "px gray64 1036 = 128" "px gray64 1037 = 128" "px gray64 1038 = 128"
    "px gray64 1044 = 128" "px gray64 1045 = 128" "px gray64 1046 = 128"
    "px gray64 784 = 128" "px gray64 785 = 128" "px gray64 786 = 128"
    "px gray64 1296 = 128" "px gray64 1297 = 128" "px gray64 1298 = 128"
    by (rule px_gray64; simp)+
  then show ?thesis
    by (simp add: claimed_exy_def)
qed

text \<open>
  Claim C6 fails on the source. On the 64 x 64 frame of mid-grey pixels
  \<open>(128, 128, 128, 255)\<close> the horizontal term \<open>ex\<close> is 0, but the sum of the row below
  is added to \<open>top\<close> while \<open>bot\<close> stays 0, so \<open>ey = 768\<close> at each of the 196 sampling
  points instead of the 0 that \<open>\<bar>top - bot\<bar>\<close> of the two neighbours gives. The estimate
  is \<open>383 / 768\<close>, about one half, not a value close to 0.
\<close>

theorem gradient_gray64:
  "rgba_buffer gray64 64 64
   \<and> claimed_exy gray64 64 4 4 = 0
   \<and> gradient_pixel gray64 64 4 4 = (768, 384)
   \<and> gradient gray64 64 64 = 383 / 768"
proof -
  have "gradient gray64 64 64 = 383 / 768"
    unfolding gradient_closed_form sums_gray64 by simp
  moreover have "gradient_pixel gray64 64 4 4 = (768, 384)"
    by (rule gradient_pixel_gray64) simp_all
  ultimately show ?thesis by (simp add: rgba_buffer_gray64 claimed_exy_gray64)
qed

section \<open>Properties of the Otsu estimator\<close>

lemma fold_otsu_step_bound:
  "fst acc \<le> n \<Longrightarrow> (\<And>i. i \<in> set xs \<Longrightarrow> i \<le> n) \<Longrightarrow> fst (fold (otsu_step prob) xs acc) \<le> n"
proof (induction xs arbitrary: acc)
  case Nil
  then show ?case by simp
next
  case (Cons x xs)
  have "fst (otsu_step prob x acc) \<le> n"
    using Cons.prems by (cases acc) (simp add: otsu_step_def)
  then show ?case
    using Cons.IH[of "otsu_step prob x acc"] Cons.prems(2) by simp
qed

text \<open>
  Claim C9. For every histogram and positive dimensions the Otsu estimator returns a
  level between 0 and 254: only the candidates 0 to 254 are scanned.
\<close>

theorem otsu_range:
  assumes "0 < Width" "0 < Height" "length hist = 256"
  shows "0 \<le> otsu Width Height hist \<and> otsu Width Height hist \<le> 254"
proof -
  let ?r = "fold (otsu_step (otsu_prob Width Height hist)) [0..<256 - 1] (0, 0)"
  have "fst ?r \<le> 254"
    by (rule fold_otsu_step_bound) auto
  moreover have "otsu Width Height hist = int (fst ?r)"
    by (simp add: otsu_def split: prod.split)
  ultimately show ?thesis by simp
qed

lemma fold_otsu_step_no_change:
  "(\<And>i. i \<in> set xs \<Longrightarrow> otsu_sigma prob i \<le> m) \<Longrightarrow> fold (otsu_step prob) xs (t, m) = (t, m)"
proof (induction xs)
  case Nil
  then show ?case by simp
next
  case (Cons x xs)
  have "otsu_step prob x (t, m) = (t, m)"
    using Cons.prems[of x] by (simp add: otsu_step_def)
  then show ?case using Cons by simp
qed

lemma otsu_prob_half:
  "i < 256 \<Longrightarrow> otsu_prob 256 256 half_hist i = (if i = 0 \<or> i = 255 then 1 / 2 else 0)"
  by (simp add: otsu_prob_def half_hist_def nth_list_update)

lemma otsu_omega_half: "i < 255 \<Longrightarrow> otsu_omega (otsu_prob 256 256 half_hist) i = 1 / 2"
  by (induction i) (simp_all add: otsu_prob_half)

lemma otsu_myu_half: "i < 255 \<Longrightarrow> otsu_myu (otsu_prob 256 256 half_hist) i = 0"
  by (induction i) (simp_all add: otsu_prob_half)

lemma otsu_myu_half_255: "otsu_myu (otsu_prob 256 256 half_hist) 255 = 255 / 2"
proof -
  have "otsu_myu (otsu_prob 256 256 half_hist) (Suc 254) = 255 / 2"
    unfolding otsu_myu.simps by (simp add: otsu_myu_half otsu_prob_half)
  then show ?thesis by simp
qed

lemma otsu_sigma_half: "i < 255 \<Longrightarrow> otsu_sigma (otsu_prob 256 256 half_hist) i = 65025 / 4"
  by (simp add: otsu_sigma_def otsu_omega_half otsu_myu_half otsu_myu_half_255 power2_eq_square)

lemma otsu_half_hist: "otsu 256 256 half_hist = 0"
proof -
  let ?p = "otsu_prob 256 256 half_hist"
  have u: "[0..<256 - 1] = 0 # [1..<255]"
    by (simp add: upt_conv_Cons del: upt_Suc)
  have f: "fold (otsu_step ?p) [0..<256 - 1] (0, 0)
         = fold (otsu_step ?p) [1..<255] (otsu_step ?p 0 (0, 0))"
    unfolding u by simp
  have "otsu_step ?p 0 (0, 0) = (0, 65025 / 4)"
    by (simp add: otsu_step_def otsu_sigma_half)
  moreover have "fold (otsu_step ?p) [1..<255] (0, 65025 / 4) = (0, 65025 / 4)"
    by (rule fold_otsu_step_no_change) (simp add: otsu_sigma_half)
  ultimately have "fold (otsu_step ?p) [0..<256 - 1] (0, 0) = (0, 65025 / 4)"
    unfolding f by simp
  then show ?thesis
    unfolding otsu_def Let_def by simp
qed

text \<open>The theorem of C9 at the histogram of the half black, half white frame.\<close>

theorem otsu_range_witness:
  "(0::int) < 256 \<and> length half_hist = 256
   \<and> 0 \<le> otsu 256 256 half_hist \<and> otsu 256 256 half_hist \<le> 254"
  using otsu_range [of 256 256 half_hist]
  by (simp add: half_hist_def)

text \<open>
  Claim C5, as amended. The histogram of the half black, half white 256 x 256 frame has
  32768 samples at level 0 and 32768 at level 255; every candidate level from 0 to 254
  then has the same inter-class variance (shown here for 0, 127 and 128), the scan keeps
  the first one, and the Otsu estimator returns 0.
\<close>

theorem otsu_half256_returns_first_level:
  "rgba_buffer half256 256 256
   \<and> histo half256 256 256 histogram = half_hist
   \<and> otsu_sigma (otsu_prob 256 256 half_hist) 0 = 65025 / 4
   \<and> otsu_sigma (otsu_prob 256 256 half_hist) 127 = 65025 / 4
   \<and> otsu_sigma (otsu_prob 256 256 half_hist) 128 = 65025 / 4
   \<and> otsu 256 256 (histo half256 256 256 histogram) = 0"
proof -
  have h: "histo half256 256 256 histogram = half_hist"
    by (rule histo_half256)
  have "otsu 256 256 (histo half256 256 256 histogram) = 0"
    unfolding h by (rule otsu_half_hist)
  moreover have "otsu_sigma (otsu_prob 256 256 half_hist) i = 65025 / 4" if "i < 255" for i
    using that by (rule otsu_sigma_half)
  ultimately show ?thesis
    using h rgba_buffer_half256 by simp
qed

text \<open>Claim C5 as stated fails: on that frame the returned level is neither 127 nor 128.\<close>

theorem otsu_half256_not_127_or_128:
  "otsu 256 256 (histo half256 256 256 (replicate 256 0)) \<noteq> 127
   \<and> otsu 256 256 (histo half256 256 256 (replicate 256 0)) \<noteq> 128"
proof -
  have "otsu 256 256 (histo half256 256 256 (replicate 256 0)) = 0"
    unfolding histo_half256 by (rule otsu_half_hist)
  then show ?thesis by simp
qed

section \<open>Properties of the entropy-split estimator\<close>

lemma fold_add_sum_list:
  "fold (\<lambda>i s. s + f i) xs (a::real) = a + sum_list (map f xs)"
  by (induction xs arbitrary: a) simp_all

lemma sum_list_real_unat:
  "sum_list (map (\<lambda>x. real (unat x)) (h :: 'a::len word list)) = real (sum_list (map unat h))"
  by (induction h) simp_all

lemma entropy_total:
  fixes histogram :: "ushort list"
  assumes "length histogram = 256"
  shows "fold (\<lambda>i sum. sum + real (unat (histogram ! i))) [0..<256] 0
         = real (sum_list (map unat histogram))"
proof -
  have "map (\<lambda>i. real (unat (histogram ! i))) [0..<256]
      = map (\<lambda>x. real (unat x)) (map (\<lambda>i. histogram ! i) [0..<length histogram])"
    using assms by (simp del: upt_Suc)
  also have "\<dots> = map (\<lambda>x. real (unat x)) histogram"
    by (simp only: map_nth)
  finally have m: "map (\<lambda>i. real (unat (histogram ! i))) [0..<256]
      = map (\<lambda>x. real (unat x)) histogram" .
  have "fold (\<lambda>i sum. sum + real (unat (histogram ! i))) [0..<256] 0
      = 0 + sum_list (map (\<lambda>i. real (unat (histogram ! i))) [0..<256])"
    by (rule fold_add_sum_list)
  also have "\<dots> = sum_list (map (\<lambda>x. real (unat x)) histogram)"
    by (simp only: m add_0_left)
  also have "\<dots> = real (sum_list (map unat histogram))"
    by (rule sum_list_real_unat)
  finally show ?thesis .
qed

text \<open>
  Claim C4. For every histogram whose 256 counts sum to 0 the entropy-split estimator
  returns 0: the test of the total comes before the normalisation and the entropies.
\<close>

theorem entropySplit_empty_histogram:
  assumes "length histogram = 256" "sum_list (map unat histogram) = 0"
  shows "entropySplit histogram = 0"
  using entropy_total[OF assms(1)] assms(2)
  by (simp add: entropySplit_def Let_def del: upt_Suc)

text \<open>The theorem of C4 at the all-zero histogram.\<close>

theorem entropySplit_empty_histogram_witness:
  "length (replicate 256 (0::ushort)) = 256 \<and> sum_list (map unat (replicate 256 (0::ushort))) = 0
   \<and> entropySplit (replicate 256 0) = 0"
  using entropySplit_empty_histogram [of "replicate 256 0"]
  by (simp add: sum_list_replicate)

section \<open>Properties of the threshold policy\<close>

lemma float_of_bits_075: "float_of_bits 0x3F400000 = Finite (3 / 4)"
  by (simp add: float_of_bits_def Let_def)

lemma float_of_bits_nan: "float_of_bits 0x7FC00000 = NaN"
  by (simp add: float_of_bits_def Let_def)

lemma set_threshold_unclamped:
  "m_Threshold (set_threshold this) = clamp_unit (unclamped this)"
proof (cases "unclamped this")
  case (Finite x)
  then show ?thesis
    by (auto simp: set_threshold_def unclamped_def clamp_def Let_def split: if_splits)
next
  case PosInf
  then show ?thesis
    by (auto simp: set_threshold_def unclamped_def Let_def split: if_splits)
next
  case NegInf
  then show ?thesis
    by (auto simp: set_threshold_def unclamped_def Let_def split: if_splits)
next
  case NaN
  then show ?thesis
    by (auto simp: set_threshold_def unclamped_def Let_def split: if_splits)
qed

lemma clamp_unit_in_unit_interval: "x \<noteq> NaN \<Longrightarrow> in_unit_interval (clamp_unit x)"
  by (cases x) (simp_all add: clamp_def)

lemma ProcessOpenGL_threshold:
  "fst (ProcessOpenGL (Some Texture # rest) this) = FF_SUCCESS"
  "m_Threshold (snd (ProcessOpenGL (Some Texture # rest) this)) = m_Threshold (set_threshold this)"
  by (simp_all add: ProcessOpenGL_def Let_def)

text \<open>
  Claim C2, as amended. Whenever the value assigned before the two tests (estimate times
  user value times 2 in automatic mode, the user value otherwise) is not NaN, the
  threshold of the frame is that value clamped to \<open>[0, 1]\<close>, an infinity going to the
  nearer bound, and it lies in \<open>[0, 1]\<close>; it is the threshold the object holds after
  \<^verbatim>\<open>ProcessOpenGL\<close> has run on an input texture.
\<close>

theorem effective_threshold_clamped_unless_nan:
  assumes "unclamped this \<noteq> NaN"
  shows "m_Threshold (set_threshold this) = clamp_unit (unclamped this)
   \<and> in_unit_interval (m_Threshold (set_threshold this))
   \<and> fst (ProcessOpenGL (Some Texture # rest) this) = FF_SUCCESS
   \<and> m_Threshold (snd (ProcessOpenGL (Some Texture # rest) this)) = clamp_unit (unclamped this)"
proof -
  have t: "m_Threshold (set_threshold this) = clamp_unit (unclamped this)"
    by (rule set_threshold_unclamped)
  have "in_unit_interval (clamp_unit (unclamped this))"
    using assms by (rule clamp_unit_in_unit_interval)
  then show ?thesis
    by (simp add: t ProcessOpenGL_threshold)
qed

text \<open>For finite values the clamp is the clamp on real numbers.\<close>

lemma set_threshold_finite:
  assumes "m_AutoThreshold this = Finite r" "m_UserThreshold this = Finite u"
  shows "m_Threshold (set_threshold this) =
     Finite (if m_Auto this \<noteq> 0 then clamp (r * u * 2) 0 1 else clamp u 0 1)"
  using assms by (simp add: set_threshold_unclamped unclamped_def)

lemma float_of_bits_inf: "float_of_bits 0x7F800000 = PosInf"
  by (simp add: float_of_bits_def Let_def)

lemma gradient_gray_texture:
  "gradient (tex_pixels gray_texture) (int (tex_Width gray_texture)) (int (tex_Height gray_texture))
     = 383 / 768"
proof -
  have "gradient gray64 64 64 = 383 / 768"
    unfolding gradient_closed_form sums_gray64 by simp
  then show ?thesis by (simp add: gray_texture_def)
qed

lemma running_fields:
  "m_Auto running = 1" "m_UserThreshold running = Finite (3 / 4)"
  "m_AutoThreshold running = Finite (383 / 768)"
proof -
  let ?s = "snd (SetParameter (Some auto_on) (snd (SetParameter (Some threshold_075) constructed)))"
  have s: "?s = constructed\<lparr>m_UserThreshold := Finite (3 / 4), m_Auto := 1\<rparr>"
    by (simp add: SetParameter_def threshold_075_def auto_on_def FFPARAM_Threshold_def
        FFPARAM_Auto_def float_of_bits_075)
  have a: "m_Auto (set_threshold ?s) = 1"
    unfolding s by (simp add: set_threshold_def Let_def)
  have u: "m_UserThreshold (set_threshold ?s) = Finite (3 / 4)"
    unfolding s by (simp add: set_threshold_def Let_def)
  have r: "running = (set_threshold ?s)\<lparr>m_AutoThreshold := Finite (383 / 768)\<rparr>"
    unfolding running_def ProcessOpenGL_def using a
    by (simp add: Let_def gradient_gray_texture)
  show "m_Auto running = 1" "m_UserThreshold running = Finite (3 / 4)"
    "m_AutoThreshold running = Finite (383 / 768)"
    unfolding r using a u by simp_all
qed

lemma unclamped_running: "unclamped running = Finite (383 / 512)"
  by (simp add: unclamped_def running_fields)

text \<open>
  The theorem of C2 on the running object: estimate \<open>383 / 768\<close>, user value \<open>3 / 4\<close>,
  automatic mode, threshold \<open>383 / 512\<close>.
\<close>

theorem effective_threshold_clamped_unless_nan_witness:
  "unclamped running \<noteq> NaN
   \<and> m_Threshold (set_threshold running) = Finite (383 / 512)
   \<and> in_unit_interval (m_Threshold (set_threshold running))
   \<and> fst (ProcessOpenGL [Some gray_texture] running) = FF_SUCCESS
   \<and> m_Threshold (snd (ProcessOpenGL [Some gray_texture] running)) = Finite (383 / 512)"
proof -
  have h: "unclamped running \<noteq> NaN" by (simp add: unclamped_running)
  have "clamp_unit (unclamped running) = Finite (383 / 512)"
    by (simp add: unclamped_running clamp_def)
  then show ?thesis
    using h effective_threshold_clamped_unless_nan [OF h, of gray_texture "[]"] by simp
qed

text \<open>
  Claim C2 as stated fails. When the host sets the threshold parameter to the bits of a
  NaN, both tests are false and the threshold of the next frame is NaN; in automatic mode
  the same happens when the user value is an infinity and the stored estimate is 0. In
  neither case is the threshold in \<open>[0, 1]\<close>.
\<close>

theorem effective_threshold_nan:
  "m_UserThreshold (snd (SetParameter (Some threshold_nan) constructed)) = NaN
   \<and> m_Threshold (set_threshold (snd (SetParameter (Some threshold_nan) constructed))) = NaN
   \<and> m_Threshold (snd (ProcessOpenGL [Some blank_texture]
        (snd (SetParameter (Some threshold_nan) constructed)))) = NaN
   \<and> \<not> in_unit_interval (m_Threshold (snd (ProcessOpenGL [Some blank_texture]
        (snd (SetParameter (Some threshold_nan) constructed)))))
   \<and> m_Threshold (snd (ProcessOpenGL [Some blank_texture]
        (snd (SetParameter (Some auto_on) (snd (SetParameter (Some threshold_inf) constructed)))))) = NaN
   \<and> \<not> in_unit_interval (m_Threshold (snd (ProcessOpenGL [Some blank_texture]
        (snd (SetParameter (Some auto_on) (snd (SetParameter (Some threshold_inf) constructed)))))))"
proof -
  let ?n = "snd (SetParameter (Some threshold_nan) constructed)"
  let ?i = "snd (SetParameter (Some auto_on) (snd (SetParameter (Some threshold_inf) constructed)))"
  have n: "?n = constructed\<lparr>m_UserThreshold := NaN\<rparr>"
    by (simp add: SetParameter_def threshold_nan_def FFPARAM_Threshold_def float_of_bits_nan)
  have i: "?i = constructed\<lparr>m_UserThreshold := PosInf, m_Auto := 1\<rparr>"
    by (simp add: SetParameter_def threshold_inf_def auto_on_def FFPARAM_Threshold_def
        FFPARAM_Auto_def float_of_bits_inf)
  have tn: "m_Threshold (set_threshold ?n) = NaN"
    unfolding n by (simp add: set_threshold_def constructed_def Let_def)
  have ti: "m_Threshold (set_threshold ?i) = NaN"
    unfolding i by (simp add: set_threshold_def constructed_def Let_def)
  have "m_UserThreshold ?n = NaN" unfolding n by simp
  then show ?thesis
    using tn ti by (simp add: ProcessOpenGL_threshold)
qed

end
